theory Spec2Isabelle
  imports Complex_Main
begin

section \<open>The timing decoder (component MorseInput)\<close>

text \<open>
  The decoder keeps its data in React state and refs; here they are the fields of a
  record. Timestamps are the integers that \<open>Date.now()\<close> returns (milliseconds).
  A ref that holds \<open>number | null\<close> is an \<open>option\<close>. The timing constants are
  JavaScript numbers; every value that occurs is an integer or half an integer, so
  they are modelled exactly as rationals.
\<close>

definition ditDuration :: rat where
  "ditDuration = 150"

definition dahDuration :: rat where
  "dahDuration = ditDuration * 3"

definition symbolSpaceThreshold :: rat where
  "symbolSpaceThreshold = ditDuration * 1.5"

definition interCharSpace :: rat where
  "interCharSpace = ditDuration * 3"

record decoder =
  rawInput :: string
  isPressing :: bool
  pressStartTime :: "int option"
  lastReleaseTime :: int
  charTimer :: "nat option"
  currentMorseChar :: string

text \<open>
  The environment of the component: the clock read by \<open>Date.now()\<close>, the table of
  pending one-shot timers (handle and due time, in arming order) and the next handle
  that \<open>setTimeout\<close> gives out. All timers the decoder arms run the same callback, so
  the table does not store it.
\<close>

record env =
  now :: int
  pending :: "(nat \<times> rat) list"
  nextId :: nat

definition setTimeout :: "rat \<Rightarrow> env \<Rightarrow> nat \<times> env" where
  "setTimeout delay e =
     (nextId e,
      e\<lparr>pending := pending e @ [(nextId e, of_int (now e) + delay)],
        nextId := nextId e + 1\<rparr>)"

definition clearTimeout :: "nat \<Rightarrow> env \<Rightarrow> env" where
  "clearTimeout h e = e\<lparr>pending := filter (\<lambda>p. fst p \<noteq> h) (pending e)\<rparr>"

text \<open>
  \<open>if (charTimer.current) clearTimeout(charTimer.current); charTimer.current = null\<close>.
  A handle is a number; the test is its truthiness, so the handle 0 would not be cleared.
\<close>

definition clearTimers :: "decoder \<Rightarrow> env \<Rightarrow> decoder \<times> env" where
  "clearTimers d e =
     (d\<lparr>charTimer := None\<rparr>,
      (case charTimer d of
         None \<Rightarrow> e
       | Some h \<Rightarrow> if h \<noteq> 0 then clearTimeout h e else e))"

definition clearInput :: "decoder \<Rightarrow> env \<Rightarrow> decoder \<times> env" where
  "clearInput d e =
     (case clearTimers d e of (d1, e1) \<Rightarrow>
        (d1\<lparr>rawInput := [], currentMorseChar := [], pressStartTime := None,
            lastReleaseTime := now e1, isPressing := False\<rparr>, e1))"

text \<open>
  \<open>completeInputSequence\<close> calls \<open>onInputComplete\<close> with the buffer when the buffer
  is truthy (not the empty string). The call is the result \<open>Some buffer\<close>; no call is
  \<open>None\<close>. The buffer is not touched.
\<close>

definition completeInputSequence :: "decoder \<Rightarrow> string option" where
  "completeInputSequence d =
     (if currentMorseChar d \<noteq> [] then Some (currentMorseChar d) else None)"

definition handlePressStart :: "decoder \<Rightarrow> env \<Rightarrow> decoder \<times> env" where
  "handlePressStart d e =
     (case clearTimers d e of (d1, e1) \<Rightarrow>
        (d1\<lparr>isPressing := True, pressStartTime := Some (now e1)\<rparr>, e1))"

text \<open>
  \<open>if (!pressStartTime.current) return\<close>: the guard is falsy for \<open>null\<close> and for
  the number 0. Otherwise the press duration is classified, the symbol is appended to
  the ref and to the displayed state, and the completion timer is re-armed.
\<close>

definition handlePressEnd :: "decoder \<Rightarrow> env \<Rightarrow> decoder \<times> env" where
  "handlePressEnd d e =
     (case pressStartTime d of
        None \<Rightarrow> (d, e)
      | Some t0 \<Rightarrow>
          if t0 = 0 then (d, e)
          else
            (let pressDuration = now e - t0;
                 symbol = (if of_int pressDuration < symbolSpaceThreshold
                           then CHR ''.'' else CHR ''-'');
                 d1 = d\<lparr>currentMorseChar := currentMorseChar d @ [symbol],
                        rawInput := rawInput d @ [symbol],
                        isPressing := False,
                        pressStartTime := None,
                        lastReleaseTime := now e\<rparr>
             in (case clearTimers d1 e of (d2, e2) \<Rightarrow>
                   (case setTimeout interCharSpace e2 of (h, e3) \<Rightarrow>
                      (d2\<lparr>charTimer := Some h\<rparr>, e3)))))"

text \<open>The callback of the completion timer: complete, then \<open>charTimer.current = null\<close>.\<close>

definition charTimerCallback :: "decoder \<Rightarrow> string option \<times> decoder" where
  "charTimerCallback d = (completeInputSequence d, d\<lparr>charTimer := None\<rparr>)"

subsection \<open>The decoder as an event-driven machine\<close>

text \<open>
  The component is driven by discrete events: time passing, the two pointer handlers,
  a due timer being run by the event loop, and the parent calling \<open>clearInput\<close>
  through the ref. A timer can run only when it is still in the table and its due time
  has been reached; running it removes it from the table. An event that cannot happen
  in a state gives \<open>None\<close>. The second component of a step is the call of
  \<open>onInputComplete\<close> made during the step, if any.
\<close>

datatype event = Tick nat | PressStart | PressEnd | TimerFires nat | ClearInput

definition due :: "nat \<Rightarrow> env \<Rightarrow> bool" where
  "due h e = list_ex (\<lambda>p. fst p = h \<and> snd p \<le> of_int (now e)) (pending e)"

fun step :: "event \<Rightarrow> decoder \<times> env \<Rightarrow> ((decoder \<times> env) \<times> string option) option" where
  "step (Tick n) (d, e) = Some ((d, e\<lparr>now := now e + int n\<rparr>), None)"
| "step PressStart (d, e) = Some (handlePressStart d e, None)"
| "step PressEnd (d, e) = Some (handlePressEnd d e, None)"
| "step (TimerFires h) (d, e) =
     (if due h e
      then (case charTimerCallback d of (out, d1) \<Rightarrow> Some ((d1, clearTimeout h e), out))
      else None)"
| "step ClearInput (d, e) = Some (clearInput d e, None)"

fun run :: "event list \<Rightarrow> decoder \<times> env \<Rightarrow> ((decoder \<times> env) \<times> string list) option" where
  "run [] w = Some (w, [])"
| "run (ev # evs) w =
     (case step ev w of
        None \<Rightarrow> None
      | Some (w1, out) \<Rightarrow>
          (case run evs w1 of
             None \<Rightarrow> None
           | Some (w2, outs) \<Rightarrow>
               Some (w2, (case out of None \<Rightarrow> [] | Some s \<Rightarrow> [s]) @ outs)))"

text \<open>The state of a decoder mounted at time \<open>t\<close>, and the world it starts in.\<close>

definition freshDecoder :: "int \<Rightarrow> decoder" where
  "freshDecoder t =
     \<lparr>rawInput = [], isPressing = False, pressStartTime = None,
      lastReleaseTime = t, charTimer = None, currentMorseChar = []\<rparr>"

definition initial :: "int \<Rightarrow> decoder \<times> env" where
  "initial t = (freshDecoder t, \<lparr>now = t, pending = [], nextId = 1\<rparr>)"

text \<open>Events of the environment alone: the user and the parent do nothing.\<close>

fun env_only :: "event list \<Rightarrow> bool" where
  "env_only [] = True"
| "env_only (Tick n # evs) = env_only evs"
| "env_only (TimerFires h # evs) = env_only evs"
| "env_only (ev # evs) = False"

text \<open>Only dots and dashes.\<close>

definition symbols_only :: "string \<Rightarrow> bool" where
  "symbols_only s = list_all (\<lambda>c. c = CHR ''.'' \<or> c = CHR ''-'') s"


text \<open>
  What holds of the decoder in every state it reaches: a positive handle counter, a
  buffer of symbols that the displayed state mirrors, and a timer table that holds
  exactly the timer the ref \<open>charTimer\<close> names, due one inter-character space after
  the last release.
\<close>

definition timer_ok :: "decoder \<Rightarrow> env \<Rightarrow> bool" where
  "timer_ok d e =
     (case charTimer d of
        None \<Rightarrow> pending e = []
      | Some h \<Rightarrow> h \<noteq> 0 \<and> map fst (pending e) = [h])"

definition decoder_inv :: "decoder \<times> env \<Rightarrow> bool" where
  "decoder_inv w =
     (case w of (d, e) \<Rightarrow>
        0 < nextId e \<and> symbols_only (currentMorseChar d) \<and>
        rawInput d = currentMorseChar d \<and>
        (case charTimer d of
           None \<Rightarrow> pending e = []
         | Some h \<Rightarrow> h \<noteq> 0 \<and> currentMorseChar d \<noteq> [] \<and>
                     pending e = [(h, of_int (lastReleaseTime d) + interCharSpace)]))"

section \<open>The Morse converter (utils/morseConverter)\<close>

text \<open>
  A JavaScript string is a sequence of UTF-16 code units. A code unit is modelled as
  an integer (the code units are the numbers from 0 to 65535; nothing here can leave
  that range), and \<open>js\<close> gives the code units of an ASCII literal.
\<close>

type_synonym code_unit = int

type_synonym js_string = "code_unit list"

definition js :: "string \<Rightarrow> js_string" where
  "js s = map of_char s"

text \<open>
  \<open>String.prototype.toUpperCase\<close> is a built-in of the language: it follows the
  Unicode case mappings, where one code unit can become several (U+00DF becomes SS).
  The functions that call it take it as the argument \<open>toUpperCase\<close>, and what a
  theorem needs of it is stated there. \<open>upperLatin1\<close> is the built-in on strings of
  code units below 256; it is the function at which concrete instances are evaluated.
\<close>

definition upperLatin1Unit :: "code_unit \<Rightarrow> js_string" where
  "upperLatin1Unit u =
     (if 0x61 \<le> u \<and> u \<le> 0x7A then [u - 0x20]
      else if u = 0xB5 then [0x39C]
      else if u = 0xDF then [0x53, 0x53]
      else if u = 0xFF then [0x178]
      else if 0xE0 \<le> u \<and> u \<le> 0xFE \<and> u \<noteq> 0xF7 then [u - 0x20]
      else [u])"

definition upperLatin1 :: "js_string \<Rightarrow> js_string" where
  "upperLatin1 s = concat (map upperLatin1Unit s)"

text \<open>
  \<open>String.prototype.trim\<close> removes white space and line terminators from both ends:
  TAB, LF, VT, FF, CR, the space, the no-break space, the space separators of Unicode
  and the byte order mark.
\<close>

definition isWhiteSpace :: "code_unit \<Rightarrow> bool" where
  "isWhiteSpace u =
     (u \<in> set [0x09, 0x0A, 0x0B, 0x0C, 0x0D, 0x20, 0xA0, 0x1680,
               0x2000, 0x2001, 0x2002, 0x2003, 0x2004, 0x2005, 0x2006, 0x2007,
               0x2008, 0x2009, 0x200A, 0x2028, 0x2029, 0x202F, 0x205F, 0x3000, 0xFEFF])"

definition trim :: "js_string \<Rightarrow> js_string" where
  "trim s = rev (dropWhile isWhiteSpace (rev (dropWhile isWhiteSpace s)))"

text \<open>\<open>Array.prototype.join\<close> and \<open>String.prototype.split\<close> with a one-character separator.\<close>

fun join :: "js_string \<Rightarrow> js_string list \<Rightarrow> js_string" where
  "join sep [] = []"
| "join sep [x] = x"
| "join sep (x # y # ys) = x @ sep @ join sep (y # ys)"

fun split :: "code_unit \<Rightarrow> js_string \<Rightarrow> js_string list" where
  "split sep [] = [[]]"
| "split sep (c # cs) =
     (if c = sep then [] # split sep cs
      else (case split sep cs of
              [] \<Rightarrow> [[c]]
            | p # ps \<Rightarrow> (c # p) # ps))"

text \<open>The table of the converter, in the order of the object literal.\<close>

definition morseCodeTable :: "(char \<times> string) list" where
  "morseCodeTable =
     [(CHR ''A'', ''.-''), (CHR ''B'', ''-...''), (CHR ''C'', ''-.-.''), (CHR ''D'', ''-..''),
      (CHR ''E'', ''.''), (CHR ''F'', ''..-.''), (CHR ''G'', ''--.''), (CHR ''H'', ''....''),
      (CHR ''I'', ''..''), (CHR ''J'', ''.---''), (CHR ''K'', ''-.-''), (CHR ''L'', ''.-..''),
      (CHR ''M'', ''--''), (CHR ''N'', ''-.''), (CHR ''O'', ''---''), (CHR ''P'', ''.--.''),
      (CHR ''Q'', ''--.-''), (CHR ''R'', ''.-.''), (CHR ''S'', ''...''), (CHR ''T'', ''-''),
      (CHR ''U'', ''..-''), (CHR ''V'', ''...-''), (CHR ''W'', ''.--''), (CHR ''X'', ''-..-''),
      (CHR ''Y'', ''-.--''), (CHR ''Z'', ''--..''),
      (CHR ''1'', ''.----''), (CHR ''2'', ''..---''), (CHR ''3'', ''...--''),
      (CHR ''4'', ''....-''), (CHR ''5'', ''.....''), (CHR ''6'', ''-....''),
      (CHR ''7'', ''--...''), (CHR ''8'', ''---..''), (CHR ''9'', ''----.''),
      (CHR ''0'', ''-----''),
      (CHR ''.'', ''.-.-.-''), (CHR '','', ''--..--''), (CHR ''?'', ''..--..''),
      (CHR 0x27, ''.----.''), (CHR ''!'', ''-.-.--''), (CHR ''/'', ''-..-.''),
      (CHR ''('', ''-.--.''), (CHR '')'', ''-.--.-''), (CHR ''&'', ''.-...''),
      (CHR '':'', ''---...''), (CHR '';'', ''-.-.-.''), (CHR ''='', ''-...-''),
      (CHR ''+'', ''.-.-.''), (CHR ''-'', ''-....-''), (CHR ''_'', ''..--.-''),
      (CHR 0x22, ''.-..-.''), (CHR ''$'', ''...-..-''), (CHR ''@'', ''.--.-.'')]"

text \<open>The object: every key is a string of one code unit, every value a string.\<close>

definition morseCodeMap :: "(code_unit \<times> js_string) list" where
  "morseCodeMap = map (\<lambda>p. (of_char (fst p), js (snd p))) morseCodeTable"

text \<open>
  \<open>if (!word) return ''\<close>, then the chain on \<open>word.toUpperCase()\<close>.
  \<open>morseCodeMap[char] || ''\<close> is the property, or the empty string when it is missing
  or falsy. A key read here is a single code unit, so no inherited property is found.
\<close>

definition wordToMorse :: "(js_string \<Rightarrow> js_string) \<Rightarrow> js_string \<Rightarrow> js_string" where
  "wordToMorse toUpperCase word =
     (if word = [] then []
      else join (js '' '')
             (filter (\<lambda>code. code \<noteq> [])
                (map (\<lambda>char. case map_of morseCodeMap char of
                               None \<Rightarrow> []
                             | Some code \<Rightarrow> if code \<noteq> [] then code else [])
                     (toUpperCase word))))"







text \<open>
  The converter as the specification words it: uppercase the word, look every
  character up, keep the codes of the characters the table has, and put one space
  between consecutive codes.
\<close>

definition wordToMorse_spec :: "(js_string \<Rightarrow> js_string) \<Rightarrow> js_string \<Rightarrow> js_string" where
  "wordToMorse_spec toUpperCase word =
     (case List.map_filter (map_of morseCodeMap) (toUpperCase word) of
        [] \<Rightarrow> []
      | code # codes \<Rightarrow> code @ concat (map (\<lambda>c. js '' '' @ c) codes))"

section \<open>The word-mode loader (routes/learn.words)\<close>

text \<open>
  The loader reads the API key from the environment and asks the generator for a word.
  The exchange either yields the text of the response or throws an error object, whose
  message may be missing. The loader returns the object it passes to \<open>json\<close>; every
  path of the source ends in such a return.
\<close>

datatype api_outcome = Responds js_string | Throws "js_string option"

record loader_data =
  word :: js_string
  error :: "js_string option"

fun includes_str :: "js_string \<Rightarrow> js_string \<Rightarrow> bool" where
  "includes_str [] sub = (sub = [])"
| "includes_str (c # cs) sub = (take (length sub) (c # cs) = sub \<or> includes_str cs sub)"

text \<open>The test \<open>/^[A-Z]+$/\<close>: at least one code unit, all of them capital letters A to Z.\<close>

definition lettersOnly :: "js_string \<Rightarrow> bool" where
  "lettersOnly s = (s \<noteq> [] \<and> list_all (\<lambda>u. 0x41 \<le> u \<and> u \<le> 0x5A) s)"

definition loader ::
  "(js_string \<Rightarrow> js_string) \<Rightarrow> js_string option \<Rightarrow> api_outcome \<Rightarrow> loader_data" where
  "loader toUpperCase apiKey outcome =
     (if apiKey = None \<or> apiKey = Some []
      then \<lparr>word = js ''ERROR'', error = Some (js ''API key not configured.'')\<rparr>
      else
        (case outcome of
           Responds raw \<Rightarrow>
             (let text = toUpperCase (trim raw)
              in if text = [] \<or> \<not> lettersOnly text \<or> includes_str text (js '' '')
                 then \<lparr>word = js ''HELLO'',
                       error = Some (js ''Received invalid word format, using default.'')\<rparr>
                 else \<lparr>word = text, error = None\<rparr>)
         | Throws message \<Rightarrow>
             (let errorMessage =
                    (if (case message of
                           None \<Rightarrow> False
                         | Some m \<Rightarrow> includes_str m (js ''API key not valid''))
                     then js ''Invalid API Key.''
                     else js ''Failed to fetch word from API.'')
              in \<lparr>word = js ''MORSE'', error = Some errorMessage\<rparr>)))"

section \<open>The letter-mode session (component LearningInterface)\<close>

text \<open>The table of the session has the letters only; the sequence is its keys.\<close>

definition letterMorseCodeMap :: "(char \<times> string) list" where
  "letterMorseCodeMap =
     [(CHR ''A'', ''.-''), (CHR ''B'', ''-...''), (CHR ''C'', ''-.-.''), (CHR ''D'', ''-..''),
      (CHR ''E'', ''.''), (CHR ''F'', ''..-.''), (CHR ''G'', ''--.''), (CHR ''H'', ''....''),
      (CHR ''I'', ''..''), (CHR ''J'', ''.---''), (CHR ''K'', ''-.-''), (CHR ''L'', ''.-..''),
      (CHR ''M'', ''--''), (CHR ''N'', ''-.''), (CHR ''O'', ''---''), (CHR ''P'', ''.--.''),
      (CHR ''Q'', ''--.-''), (CHR ''R'', ''.-.''), (CHR ''S'', ''...''), (CHR ''T'', ''-''),
      (CHR ''U'', ''..-''), (CHR ''V'', ''...-''), (CHR ''W'', ''.--''), (CHR ''X'', ''-..-''),
      (CHR ''Y'', ''-.--''), (CHR ''Z'', ''--..'')]"

definition learningSequence :: "char list" where
  "learningSequence = map fst letterMorseCodeMap"

datatype validation_state = Idle | Correct | Incorrect

text \<open>
  The two delayed callbacks that \<open>handleInputComplete\<close> schedules. The one that
  advances closes over the item index of the render that scheduled it.
\<close>

datatype callback = AdvanceCallback nat | RetryCallback

text \<open>
  The session after its first client render. \<open>input\<close> is the mounted decoder behind
  \<open>morseInputRef\<close> (\<open>None\<close> when the interface renders no decoder), \<open>world\<close> the
  environment shared with it, \<open>timeouts\<close> the session's own pending timers with their
  due times; their handles are not kept by the session, so they are never cancelled.
\<close>

record session =
  currentItemIndex :: nat
  validationState :: validation_state
  feedbackMessage :: string
  input :: "decoder option"
  world :: env
  timeouts :: "(rat \<times> callback) list"

definition currentItem :: "session \<Rightarrow> char option" where
  "currentItem s =
     (if currentItemIndex s < length learningSequence
      then Some (learningSequence ! currentItemIndex s) else None)"

definition expectedMorse :: "session \<Rightarrow> string option" where
  "expectedMorse s =
     (case currentItem s of None \<Rightarrow> None | Some c \<Rightarrow> map_of letterMorseCodeMap c)"

definition scheduleCallback :: "rat \<Rightarrow> callback \<Rightarrow> session \<Rightarrow> session" where
  "scheduleCallback delay cb s =
     s\<lparr>timeouts := timeouts s @ [(of_int (now (world s)) + delay, cb)],
       world := (world s)\<lparr>nextId := nextId (world s) + 1\<rparr>\<rparr>"

definition handleInputComplete :: "string \<Rightarrow> session \<Rightarrow> session" where
  "handleInputComplete inputMorse s =
     (case currentItem s of
        None \<Rightarrow> s
      | Some item \<Rightarrow>
          if Some inputMorse = expectedMorse s
          then scheduleCallback 800 (AdvanceCallback (currentItemIndex s))
                 (s\<lparr>validationState := Correct, feedbackMessage := ''Correct!''\<rparr>)
          else scheduleCallback 1500 RetryCallback
                 (s\<lparr>validationState := Incorrect,
                    feedbackMessage :=
                      ''Incorrect. Expected: ''
                      @ (case expectedMorse s of None \<Rightarrow> ''undefined'' | Some m \<Rightarrow> m)\<rparr>))"

text \<open>\<open>morseInputRef.current?.clearInput()\<close>.\<close>

definition refClearInput :: "session \<Rightarrow> session" where
  "refClearInput s =
     (case input s of
        None \<Rightarrow> s
      | Some d \<Rightarrow>
          (case clearInput d (world s) of (d1, e1) \<Rightarrow> s\<lparr>input := Some d1, world := e1\<rparr>))"

text \<open>
  The render that follows a change of the item index. The decoder is keyed by the
  index: the old instance is unmounted (its cleanup clears its timers) and, when there
  is a current item, a new instance is mounted. Then the effect that depends on the
  index resets the feedback and clears the input.
\<close>

definition itemChanged :: "session \<Rightarrow> session" where
  "itemChanged s =
     (let s1 = (case input s of
                  None \<Rightarrow> s
                | Some d \<Rightarrow> s\<lparr>world := snd (clearTimers d (world s))\<rparr>);
          s2 = s1\<lparr>input := (if currentItem s1 = None then None
                            else Some (freshDecoder (now (world s1))))\<rparr>
      in refClearInput (s2\<lparr>validationState := Idle, feedbackMessage := []\<rparr>))"

fun runCallback :: "callback \<Rightarrow> session \<Rightarrow> session" where
  "runCallback (AdvanceCallback idx) s =
     (if idx < length learningSequence - 1
      then itemChanged
             (refClearInput
                (s\<lparr>currentItemIndex := currentItemIndex s + 1,
                   validationState := Idle, feedbackMessage := []\<rparr>))
      else s\<lparr>feedbackMessage := ''Congratulations! You completed all letters.''\<rparr>)"
| "runCallback RetryCallback s =
     refClearInput (s\<lparr>validationState := Idle, feedbackMessage := []\<rparr>)"

text \<open>
  The events of the session: time passing, the two pointer events on the decoder's
  button, a due completion timer of the decoder, and a due timer of the session (by
  its position in \<open>timeouts\<close>). The pointer events need a mounted decoder. The
  completion timer calls \<open>onInputComplete\<close>, which is \<open>handleInputComplete\<close>.
  The timer queue runs a timer only after every pending timer that was armed before it
  and is due no later; \<open>timeouts\<close> is in arming order. The session arms its timers
  only inside the decoder's completion callback, when the decoder's single timer has
  just left the table, so a pending completion timer is younger than every pending
  session timer: it waits for those that are due no later, and none waits for it.
\<close>

datatype session_event = Wait nat | Press | Release | CharTimer nat | SessionTimer nat

fun session_step :: "session_event \<Rightarrow> session \<Rightarrow> session option" where
  "session_step (Wait n) s = Some (s\<lparr>world := (world s)\<lparr>now := now (world s) + int n\<rparr>\<rparr>)"
| "session_step Press s =
     (case input s of
        None \<Rightarrow> None
      | Some d \<Rightarrow>
          (case handlePressStart d (world s) of (d1, e1) \<Rightarrow>
             Some (s\<lparr>input := Some d1, world := e1\<rparr>)))"
| "session_step Release s =
     (case input s of
        None \<Rightarrow> None
      | Some d \<Rightarrow>
          (case handlePressEnd d (world s) of (d1, e1) \<Rightarrow>
             Some (s\<lparr>input := Some d1, world := e1\<rparr>)))"
| "session_step (CharTimer h) s =
     (case input s of
        None \<Rightarrow> None
      | Some d \<Rightarrow>
          if due h (world s) \<and>
             list_all (\<lambda>q. list_all (\<lambda>p. if fst p = h then snd p < fst q else True)
                                 (pending (world s)))
                      (timeouts s)
          then (let s0 = s\<lparr>world := clearTimeout h (world s)\<rparr>;
                    s1 = (case completeInputSequence d of
                            None \<Rightarrow> s0
                          | Some code \<Rightarrow> handleInputComplete code s0)
                in Some (s1\<lparr>input := Some (d\<lparr>charTimer := None\<rparr>)\<rparr>))
          else None)"
| "session_step (SessionTimer k) s =
     (if k < length (timeouts s) \<and> fst (timeouts s ! k) \<le> of_int (now (world s)) \<and>
         list_all (\<lambda>p. fst (timeouts s ! k) < fst p) (take k (timeouts s))
      then Some (runCallback (snd (timeouts s ! k))
                   (s\<lparr>timeouts := take k (timeouts s) @ drop (Suc k) (timeouts s)\<rparr>))
      else None)"

fun session_run :: "session_event list \<Rightarrow> session \<Rightarrow> session option" where
  "session_run [] s = Some s"
| "session_run (ev # evs) s =
     (case session_step ev s of None \<Rightarrow> None | Some s1 \<Rightarrow> session_run evs s1)"

definition initialSession :: "int \<Rightarrow> session" where
  "initialSession t =
     \<lparr>currentItemIndex = 0, validationState = Idle, feedbackMessage = [],
      input = Some (freshDecoder t),
      world = \<lparr>now = t, pending = [], nextId = 1\<rparr>, timeouts = []\<rparr>"

text \<open>The buffer of the session's decoder; there is none when no decoder is mounted.\<close>

definition buffer :: "session \<Rightarrow> string" where
  "buffer s = (case input s of None \<Rightarrow> [] | Some d \<Rightarrow> currentMorseChar d)"

definition displayed :: "session \<Rightarrow> string" where
  "displayed s = (case input s of None \<Rightarrow> [] | Some d \<Rightarrow> rawInput d)"

text \<open>
  Keying a code on the button: a press of 100 ms for a dot and of 300 ms for a dash,
  50 ms between symbols, then the quiet period, the completion timer (whose handle
  follows from the handle counter \<open>h\<close> at the start) and, 800 ms later, the session's
  first pending timer.
\<close>

fun keySymbols :: "string \<Rightarrow> session_event list" where
  "keySymbols [] = []"
| "keySymbols (c # cs) =
     [Press, Wait (if c = CHR ''.'' then 100 else 300), Release, Wait 50] @ keySymbols cs"

definition keyCode :: "nat \<Rightarrow> string \<Rightarrow> session_event list" where
  "keyCode h code = keySymbols code @ [Wait 400, CharTimer (h + length code - 1)]"

fun keyLetters :: "nat \<Rightarrow> string list \<Rightarrow> session_event list" where
  "keyLetters h [] = []"
| "keyLetters h (code # codes) =
     keyCode h code @ [Wait 800, SessionTimer 0] @ keyLetters (h + length code + 1) codes"


text \<open>
  What holds of the session in every state it reaches: its decoder's buffer has symbols
  only and is what is displayed, and the timer table holds at most the timer its
  decoder names.
\<close>

definition session_inv :: "session \<Rightarrow> bool" where
  "session_inv s =
     (symbols_only (buffer s) \<and> displayed s = buffer s \<and> 0 < nextId (world s) \<and>
      (case input s of
         None \<Rightarrow> pending (world s) = []
       | Some d \<Rightarrow> timer_ok d (world s)))"

section \<open>Properties of the decoder\<close>

lemma threshold_value: "symbolSpaceThreshold = 225"
  by (simp add: symbolSpaceThreshold_def ditDuration_def)

lemma gap_value: "interCharSpace = 450"
  by (simp add: interCharSpace_def ditDuration_def)

lemma initial_inv: "decoder_inv (initial t)"
  by (simp add: decoder_inv_def initial_def freshDecoder_def symbols_only_def)

lemma inv_timer_ok: "decoder_inv (d, e) \<Longrightarrow> timer_ok d e"
  by (auto simp: decoder_inv_def timer_ok_def split: option.splits)

lemma clearTimers_effect:
  assumes "timer_ok d e" and "clearTimers d e = (d1, e1)"
  shows "pending e1 = [] \<and> d1 = d\<lparr>charTimer := None\<rparr> \<and> nextId e1 = nextId e \<and> now e1 = now e"
  using assms
  by (auto simp: timer_ok_def clearTimers_def clearTimeout_def split: option.splits if_splits)

lemma handlePressEnd_effect:
  assumes "pressStartTime d = Some t0" and "t0 \<noteq> 0" and "timer_ok d e"
    and "handlePressEnd d e = (d', e')"
  shows "d' = d\<lparr>currentMorseChar :=
                  currentMorseChar d @ [if now e - t0 < 225 then CHR ''.'' else CHR ''-''],
                rawInput := rawInput d @ [if now e - t0 < 225 then CHR ''.'' else CHR ''-''],
                isPressing := False, pressStartTime := None, lastReleaseTime := now e,
                charTimer := Some (nextId e)\<rparr>
       \<and> e' = e\<lparr>pending := [(nextId e, of_int (now e) + interCharSpace)],
                nextId := nextId e + 1\<rparr>"
proof -
  define sym where "sym = (if of_int (now e - t0) < symbolSpaceThreshold then CHR ''.'' else CHR ''-'')"
  define dd where "dd = d\<lparr>currentMorseChar := currentMorseChar d @ [sym],
                        rawInput := rawInput d @ [sym],
                        isPressing := False,
                        pressStartTime := None,
                        lastReleaseTime := now e\<rparr>"
  have s: "sym = (if now e - t0 < 225 then CHR ''.'' else CHR ''-'')"
    by (simp add: sym_def threshold_value)
  have i: "timer_ok dd e" using assms(3) by (simp add: timer_ok_def dd_def)
  obtain d2 e2 where c: "clearTimers dd e = (d2, e2)" by (cases "clearTimers dd e")
  note ct = clearTimers_effect[OF i c]
  have "(d', e') = (d2\<lparr>charTimer := Some (nextId e2)\<rparr>,
                  e2\<lparr>pending := pending e2 @ [(nextId e2, of_int (now e2) + interCharSpace)],
                     nextId := nextId e2 + 1\<rparr>)"
    using assms(1,2,4) c
    by (simp add: handlePressEnd_def Let_def setTimeout_def dd_def sym_def)
  moreover have "e2 = e\<lparr>pending := []\<rparr>" using c i
    by (auto simp: timer_ok_def clearTimers_def clearTimeout_def split: option.splits if_splits)
  ultimately show ?thesis using ct by (simp add: dd_def s)
qed

lemma step_inv:
  assumes "decoder_inv w" and "step ev w = Some (w', out)"
  shows "decoder_inv w'"
proof (cases w)
  case (Pair d e)
  note tk = inv_timer_ok[OF assms(1)[unfolded Pair]]
  show ?thesis
  proof (cases ev)
    case (Tick n)
    with assms Pair show ?thesis by (auto simp: decoder_inv_def split: option.splits)
  next
    case PressStart
    obtain d1 e1 where c: "clearTimers d e = (d1, e1)" by (cases "clearTimers d e")
    from clearTimers_effect[OF tk c] assms Pair PressStart c show ?thesis
      by (auto simp: decoder_inv_def handlePressStart_def)
  next
    case PressEnd
    show ?thesis
    proof (cases "pressStartTime d = None \<or> pressStartTime d = Some 0")
      case True
      with assms Pair PressEnd show ?thesis by (auto simp: handlePressEnd_def)
    next
      case False
      then obtain t0 where t0: "pressStartTime d = Some t0" "t0 \<noteq> 0" by auto
      obtain d' e' where w': "w' = (d', e')" by (cases w')
      have h: "handlePressEnd d e = (d', e')" using assms(2) Pair PressEnd w' by simp
      show ?thesis
        using handlePressEnd_effect[OF t0 tk h] assms(1) Pair w'
        by (auto simp: decoder_inv_def symbols_only_def)
    qed
  next
    case (TimerFires h)
    with assms Pair show ?thesis
      by (auto simp: decoder_inv_def charTimerCallback_def clearTimeout_def due_def
               split: if_splits option.splits)
  next
    case ClearInput
    obtain d1 e1 where c: "clearTimers d e = (d1, e1)" by (cases "clearTimers d e")
    from clearTimers_effect[OF tk c] assms Pair ClearInput c show ?thesis
      by (auto simp: decoder_inv_def clearInput_def symbols_only_def)
  qed
qed

lemma run_inv:
  "decoder_inv w \<Longrightarrow> run evs w = Some (w', outs) \<Longrightarrow> decoder_inv w'"
proof (induction evs arbitrary: w outs)
  case Nil
  then show ?case by simp
next
  case (Cons ev evs)
  then show ?case
    by (auto split: option.splits prod.splits dest: step_inv)
qed

lemma reachable_inv: "run evs (initial t) = Some (w, outs) \<Longrightarrow> decoder_inv w"
  using run_inv[OF initial_inv] .

lemma clearTimers_now: "now (snd (clearTimers d e)) = now e"
  by (simp add: clearTimers_def clearTimeout_def split: option.splits)

lemma step_mono:
  "step ev (d, e) = Some ((d', e'), out) \<Longrightarrow> now e \<le> now e'"
proof (cases ev)
  case PressEnd
  assume "step ev (d, e) = Some ((d', e'), out)"
  with PressEnd show ?thesis
    using clearTimers_now[of "d\<lparr>currentMorseChar := currentMorseChar d @ [if of_int (now e - the (pressStartTime d)) < symbolSpaceThreshold then CHR ''.'' else CHR ''-''],
                        rawInput := rawInput d @ [if of_int (now e - the (pressStartTime d)) < symbolSpaceThreshold then CHR ''.'' else CHR ''-''],
                        isPressing := False,
                        pressStartTime := None,
                        lastReleaseTime := now e\<rparr>" e]
    by (auto simp: handlePressEnd_def Let_def setTimeout_def split: option.splits if_splits prod.splits)
next
  case PressStart
  assume "step ev (d, e) = Some ((d', e'), out)"
  with PressStart show ?thesis
    using clearTimers_now[of d e]
    by (auto simp: handlePressStart_def split: prod.splits)
next
  case ClearInput
  assume "step ev (d, e) = Some ((d', e'), out)"
  with ClearInput show ?thesis
    using clearTimers_now[of d e]
    by (auto simp: clearInput_def split: prod.splits)
qed (auto simp: clearTimeout_def charTimerCallback_def split: if_splits)

lemma run_mono:
  "run evs (d, e) = Some ((d', e'), outs) \<Longrightarrow> now e \<le> now e'"
proof (induction evs arbitrary: d e outs)
  case Nil
  then show ?case by simp
next
  case (Cons ev evs)
  then show ?case
    by (fastforce split: option.splits prod.splits dest: step_mono)
qed

lemma quiet_run:
  assumes "decoder_inv (d, e)" and "env_only mid"
    and "run mid (d, e) = Some ((d', e'), outs)"
    and "of_int (now e') < of_int (lastReleaseTime d) + interCharSpace"
  shows "outs = [] \<and> d' = d \<and> pending e' = pending e \<and> nextId e' = nextId e"
  using assms
proof (induction mid arbitrary: e outs)
  case Nil
  then show ?case by simp
next
  case (Cons ev mid)
  show ?case
  proof (cases ev)
    case (Tick n)
    from Cons.prems(3) Tick obtain outs1 where
      r: "run mid (d, e\<lparr>now := now e + int n\<rparr>) = Some ((d', e'), outs1)" and o: "outs = outs1"
      by (auto split: option.splits prod.splits)
    have i: "decoder_inv (d, e\<lparr>now := now e + int n\<rparr>)"
      using Cons.prems(1) by (auto simp: decoder_inv_def split: option.splits)
    from Cons.prems(2) Tick have eo: "env_only mid" by simp
    from Cons.IH[OF i eo r Cons.prems(4)] o show ?thesis by simp
  next
    case (TimerFires h)
    from Cons.prems(3) TimerFires obtain w1 out1 outs1 where
      s: "step (TimerFires h) (d, e) = Some (w1, out1)" and r: "run mid w1 = Some ((d', e'), outs1)"
      by (auto split: option.splits prod.splits if_splits)
    from s have du: "due h e" by (auto split: if_splits)
    obtain d1 e1 where w1: "w1 = (d1, e1)" by (cases w1)
    have "now e \<le> now e1" using step_mono s w1 by blast
    also have "now e1 \<le> now e'" using run_mono r w1 by blast
    finally have le: "now e \<le> now e'" .
    from du Cons.prems(1) have "of_int (lastReleaseTime d) + interCharSpace \<le> of_int (now e)"
      by (auto simp: due_def decoder_inv_def split: option.splits)
    moreover from le have "(of_int (now e) :: rat) \<le> of_int (now e')" by simp
    ultimately show ?thesis using Cons.prems(4) by linarith
  qed (use Cons.prems(2) in auto)
qed


lemma run_append:
  "run (xs @ ys) w =
     (case run xs w of
        None \<Rightarrow> None
      | Some (w1, o1) \<Rightarrow>
          (case run ys w1 of None \<Rightarrow> None | Some (w2, o2) \<Rightarrow> Some (w2, o1 @ o2)))"
  by (induction xs arbitrary: w) (auto split: option.splits prod.splits)

lemma pending_le_one: "decoder_inv (d, e) \<Longrightarrow> length (pending e) \<le> 1"
  by (auto simp: decoder_inv_def split: option.splits)

text \<open>
  Claim C1. A release that follows a recorded press classifies the press by its
  duration against the threshold of one and a half dit units (225 ms for the unit of
  150 ms): strictly shorter appends a dot to the buffer and to the displayed input,
  equal or longer appends a dash.
\<close>

theorem press_duration_classified:
  assumes "pressStartTime d = Some t0" and "t0 \<noteq> 0" and "handlePressEnd d e = (d', e')"
  shows "symbolSpaceThreshold = 1.5 * ditDuration \<and> symbolSpaceThreshold = 225 \<and>
         (of_int (now e - t0) < symbolSpaceThreshold \<longrightarrow>
            currentMorseChar d' = currentMorseChar d @ ''.'' \<and> rawInput d' = rawInput d @ ''.'') \<and>
         (symbolSpaceThreshold \<le> of_int (now e - t0) \<longrightarrow>
            currentMorseChar d' = currentMorseChar d @ ''-'' \<and> rawInput d' = rawInput d @ ''-'')"
proof -
  have "symbolSpaceThreshold = 1.5 * ditDuration"
    by (simp add: symbolSpaceThreshold_def)
  moreover note threshold_value
  moreover have "currentMorseChar d' =
      currentMorseChar d @ [if of_int (now e - t0) < symbolSpaceThreshold then CHR ''.'' else CHR ''-'']"
    and "rawInput d' =
      rawInput d @ [if of_int (now e - t0) < symbolSpaceThreshold then CHR ''.'' else CHR ''-'']"
    using assms
    by (auto simp: handlePressEnd_def Let_def clearTimers_def setTimeout_def split: option.splits)
  ultimately show ?thesis by auto
qed

theorem press_duration_classified_witness:
  "currentMorseChar (fst (handlePressEnd ((freshDecoder 1000)\<lparr>pressStartTime := Some 1000\<rparr>)
        \<lparr>now = 1100, pending = [], nextId = 1\<rparr>)) = ''.'' \<and>
   currentMorseChar (fst (handlePressEnd ((freshDecoder 1000)\<lparr>pressStartTime := Some 1000\<rparr>)
        \<lparr>now = 1300, pending = [], nextId = 1\<rparr>)) = ''-'' \<and>
   currentMorseChar (fst (handlePressEnd ((freshDecoder 1000)\<lparr>pressStartTime := Some 1000\<rparr>)
        \<lparr>now = 1225, pending = [], nextId = 1\<rparr>)) = ''-''"
  using
    press_duration_classified[where d = "(freshDecoder 1000)\<lparr>pressStartTime := Some 1000\<rparr>"
      and ?t0.0 = 1000 and e = "\<lparr>now = 1100, pending = [], nextId = 1\<rparr>", OF _ _ surjective_pairing]
    press_duration_classified[where d = "(freshDecoder 1000)\<lparr>pressStartTime := Some 1000\<rparr>"
      and ?t0.0 = 1000 and e = "\<lparr>now = 1300, pending = [], nextId = 1\<rparr>", OF _ _ surjective_pairing]
    press_duration_classified[where d = "(freshDecoder 1000)\<lparr>pressStartTime := Some 1000\<rparr>"
      and ?t0.0 = 1000 and e = "\<lparr>now = 1225, pending = [], nextId = 1\<rparr>", OF _ _ surjective_pairing]
  by (simp add: freshDecoder_def)

lemma handlePressStart_effect:
  assumes "timer_ok d e" and "handlePressStart d e = (d', e')"
  shows "d' = d\<lparr>charTimer := None, isPressing := True, pressStartTime := Some (now e)\<rparr>
       \<and> pending e' = [] \<and> now e' = now e \<and> nextId e' = nextId e"
proof -
  obtain d1 e1 where c: "clearTimers d e = (d1, e1)" by (cases "clearTimers d e")
  from clearTimers_effect[OF assms(1) c] assms(2) c show ?thesis
    by (auto simp: handlePressStart_def)
qed

lemma initial_now: "now (snd (initial t)) = t"
  by (simp add: initial_def)

text \<open>
  Claim C2. After any history, take a press, a hold and a release, and then only events
  of the environment, up to a moment before one inter-character space (three dit units)
  has passed since the release. No completion was delivered in that interval and the
  buffer is the one the release left. A press at that moment cancels the pending timer
  before anything else, so the timer table is empty after it, and the release that
  follows it appends its symbol to the same buffer. In every state the decoder reaches,
  at most one completion timer is pending.
\<close>

theorem no_premature_completion:
  assumes "0 < t0"
    and "run (pre @ [PressStart, Tick held, PressEnd]) (initial t0) = Some ((d1, e1), outs1)"
    and "env_only mid"
    and "run mid (d1, e1) = Some ((d2, e2), outs2)"
    and "of_int (now e2) < of_int (now e1) + interCharSpace"
  shows "outs2 = [] \<and> currentMorseChar d2 = currentMorseChar d1 \<and> currentMorseChar d1 \<noteq> [] \<and>
         length (pending e1) \<le> 1 \<and> length (pending e2) \<le> 1 \<and>
         (\<forall>d3 e3. handlePressStart d2 e2 = (d3, e3) \<longrightarrow>
            pending e3 = [] \<and> charTimer d3 = None \<and>
            currentMorseChar d3 = currentMorseChar d1 \<and>
            (\<forall>n. \<exists>symbol.
               currentMorseChar (fst (handlePressEnd d3 (e3\<lparr>now := now e3 + int n\<rparr>)))
               = currentMorseChar d1 @ [symbol])) \<and>
         (\<forall>evs w outs. run evs (initial t0) = Some (w, outs) \<longrightarrow> length (pending (snd w)) \<le> 1)"
proof -
  \<comment> \<open>the state before the first press\<close>
  from assms(2) obtain w0 outs0 wr outsr where
    r0: "run pre (initial t0) = Some (w0, outs0)" and
    rr: "run [PressStart, Tick held, PressEnd] w0 = Some (wr, outsr)" and
    wr: "wr = (d1, e1)"
    unfolding run_append by (auto split: option.splits prod.splits)
  obtain d0 e0 where w0: "w0 = (d0, e0)" by (cases w0)
  have i0: "decoder_inv (d0, e0)" using reachable_inv r0 w0 by blast
  have "now (snd (initial t0)) \<le> now e0"
    using run_mono[of pre "fst (initial t0)" "snd (initial t0)" d0 e0 outs0] r0 w0 by simp
  then have pos0: "0 < now e0" using assms(1) by (simp add: initial_now)
  \<comment> \<open>the press, the hold and the release\<close>
  obtain dp ep where p: "handlePressStart d0 e0 = (dp, ep)" by (cases "handlePressStart d0 e0")
  note pe = handlePressStart_effect[OF inv_timer_ok[OF i0] p]
  define eh where "eh = ep\<lparr>now := now ep + int held\<rparr>"
  have rel: "handlePressEnd dp eh = (d1, e1)"
    using rr wr w0 p by (simp add: eh_def)
  have tk: "timer_ok dp eh" using pe by (simp add: timer_ok_def eh_def)
  have st: "pressStartTime dp = Some (now e0)" "now e0 \<noteq> 0" using pe pos0 by auto
  note re = handlePressEnd_effect[OF st tk rel]
  have lr: "lastReleaseTime d1 = now e1" and ne: "currentMorseChar d1 \<noteq> []"
    using re by auto
  have i1: "decoder_inv (d1, e1)"
    using run_inv[OF initial_inv assms(2)] .
  \<comment> \<open>the quiet interval\<close>
  have q: "outs2 = [] \<and> d2 = d1 \<and> pending e2 = pending e1 \<and> nextId e2 = nextId e1"
    using quiet_run[OF i1 assms(3,4)] assms(5) lr by simp
  have i2: "decoder_inv (d2, e2)" using run_inv[OF i1 assms(4)] .
  have pos2: "0 < now e2"
  proof -
    have "now e0 \<le> now e1" using re pe by (simp add: eh_def)
    moreover have "now e1 \<le> now e2" using run_mono assms(4) by blast
    ultimately show ?thesis using pos0 by linarith
  qed
  \<comment> \<open>the second press\<close>
  have second: "pending e3 = [] \<and> charTimer d3 = None \<and>
            currentMorseChar d3 = currentMorseChar d1 \<and>
            (\<forall>n. \<exists>symbol.
               currentMorseChar (fst (handlePressEnd d3 (e3\<lparr>now := now e3 + int n\<rparr>)))
               = currentMorseChar d1 @ [symbol])"
    if h: "handlePressStart d2 e2 = (d3, e3)" for d3 e3
  proof -
    note p3 = handlePressStart_effect[OF inv_timer_ok[OF i2] h]
    have grow: "\<exists>symbol.
               currentMorseChar (fst (handlePressEnd d3 (e3\<lparr>now := now e3 + int n\<rparr>)))
               = currentMorseChar d1 @ [symbol]" for n
    proof -
      have a: "pressStartTime d3 = Some (now e2)" "now e2 \<noteq> 0" using p3 pos2 by auto
      have b: "timer_ok d3 (e3\<lparr>now := now e3 + int n\<rparr>)" using p3 by (simp add: timer_ok_def)
      from handlePressEnd_effect[OF a b surjective_pairing] p3 q show ?thesis by simp
    qed
    with p3 q show ?thesis by simp
  qed
  have "length (pending (snd w)) \<le> 1" if "run evs (initial t0) = Some (w, outs)" for evs w outs
    using pending_le_one[of "fst w" "snd w"] reachable_inv[OF that] by simp
  with q ne pending_le_one[OF i1] pending_le_one[OF i2] second show ?thesis by blast
qed

theorem no_premature_completion_witness:
  "run ([] @ [PressStart, Tick 100, PressEnd]) (initial 1000)
     = Some ((\<lparr>rawInput = ''.'', isPressing = False, pressStartTime = None,
               lastReleaseTime = 1100, charTimer = Some 1, currentMorseChar = ''.''\<rparr>,
              \<lparr>now = 1100, pending = [(1, 1550)], nextId = 2\<rparr>), []) \<and>
   run [Tick 200, Tick 249] (\<lparr>rawInput = ''.'', isPressing = False, pressStartTime = None,
               lastReleaseTime = 1100, charTimer = Some 1, currentMorseChar = ''.''\<rparr>,
              \<lparr>now = 1100, pending = [(1, 1550)], nextId = 2\<rparr>)
     = Some ((\<lparr>rawInput = ''.'', isPressing = False, pressStartTime = None,
               lastReleaseTime = 1100, charTimer = Some 1, currentMorseChar = ''.''\<rparr>,
              \<lparr>now = 1549, pending = [(1, 1550)], nextId = 2\<rparr>), []) \<and>
   pending (snd (handlePressStart \<lparr>rawInput = ''.'', isPressing = False, pressStartTime = None,
               lastReleaseTime = 1100, charTimer = Some 1, currentMorseChar = ''.''\<rparr>
              \<lparr>now = 1549, pending = [(1, 1550)], nextId = 2\<rparr>)) = []"
proof -
  let ?d1 = "\<lparr>rawInput = ''.'', isPressing = False, pressStartTime = None,
               lastReleaseTime = 1100, charTimer = Some 1, currentMorseChar = ''.''\<rparr>"
  let ?e1 = "\<lparr>now = 1100, pending = [(1, 1550)], nextId = 2\<rparr>"
  let ?e2 = "\<lparr>now = 1549, pending = [(1, 1550)], nextId = 2\<rparr>"
  have a: "(0::int) < 1000" by simp
  have b: "run ([] @ [PressStart, Tick 100, PressEnd]) (initial 1000) = Some ((?d1, ?e1), [])"
    by (simp add: initial_def freshDecoder_def handlePressStart_def handlePressEnd_def
          clearTimers_def setTimeout_def threshold_value gap_value Let_def)
  have c: "env_only [Tick 200, Tick 249]" by simp
  have d: "run [Tick 200, Tick 249] (?d1, ?e1) = Some ((?d1, ?e2), [])" by simp
  have e: "of_int (now ?e2) < of_int (now ?e1) + interCharSpace"
    by (simp add: gap_value)
  from no_premature_completion[OF a b c d e] b d show ?thesis
    by (metis prod.collapse)
qed

lemma clearInput_effect:
  assumes "timer_ok d e" and "clearInput d e = (d', e')"
  shows "currentMorseChar d' = [] \<and> rawInput d' = [] \<and> charTimer d' = None \<and>
         pressStartTime d' = None \<and> pending e' = [] \<and> now e' = now e \<and> nextId e' = nextId e"
proof -
  obtain d1 e1 where c: "clearTimers d e = (d1, e1)" by (cases "clearTimers d e")
  from clearTimers_effect[OF assms(1) c] assms(2) c show ?thesis
    by (auto simp: clearInput_def)
qed

lemma clearInput_buffer: "currentMorseChar (fst (clearInput d e)) = [] \<and> rawInput (fst (clearInput d e)) = []"
  by (simp add: clearInput_def clearTimers_def split: prod.splits)

text \<open>
  Claim C9. When the completion timer runs, the buffer and the displayed input are the
  same after it as before, whether or not a completion is delivered, and the completion
  delivered is the buffer. Of all the events of the decoder only the parent's
  \<open>clearInput\<close> turns a buffer that is not empty into the empty buffer, and it
  always empties it. In the session too, the step that delivers the completion to
  \<open>handleInputComplete\<close> leaves the buffer as it was.
\<close>

theorem completion_keeps_buffer:
  "(\<forall>h d e d' e' out.
      step (TimerFires h) (d, e) = Some ((d', e'), out) \<longrightarrow>
        currentMorseChar d' = currentMorseChar d \<and> rawInput d' = rawInput d \<and>
        out = (if currentMorseChar d = [] then None else Some (currentMorseChar d))) \<and>
   (\<forall>ev d e d' e' out.
      step ev (d, e) = Some ((d', e'), out) \<and> currentMorseChar d \<noteq> [] \<and>
      currentMorseChar d' = [] \<longrightarrow> ev = ClearInput) \<and>
   (\<forall>d e. currentMorseChar (fst (clearInput d e)) = [] \<and> rawInput (fst (clearInput d e)) = []) \<and>
   (\<forall>h s s'. session_step (CharTimer h) s = Some s' \<longrightarrow>
      buffer s' = buffer s \<and> displayed s' = displayed s)"
proof -
  have a: "currentMorseChar d' = currentMorseChar d \<and> rawInput d' = rawInput d \<and>
        out = (if currentMorseChar d = [] then None else Some (currentMorseChar d))"
    if "step (TimerFires h) (d, e) = Some ((d', e'), out)" for h d e d' e' out
    using that
    by (auto simp: charTimerCallback_def completeInputSequence_def split: if_splits)
  have b: "ev = ClearInput"
    if "step ev (d, e) = Some ((d', e'), out)" and "currentMorseChar d \<noteq> []"
      and "currentMorseChar d' = []" for ev d e d' e' out
  proof (cases ev)
    case PressStart
    with that show ?thesis
      by (auto simp: handlePressStart_def clearTimers_def split: prod.splits)
  next
    case PressEnd
    with that show ?thesis
      by (auto simp: handlePressEnd_def clearTimers_def setTimeout_def Let_def
               split: option.splits if_splits)
  next
    case (TimerFires h)
    with that show ?thesis
      by (auto simp: charTimerCallback_def split: if_splits)
  qed (use that in auto)
  have c: "buffer s' = buffer s \<and> displayed s' = displayed s"
    if "session_step (CharTimer h) s = Some s'" for h s s'
    using that
    by (auto simp: buffer_def displayed_def Let_def handleInputComplete_def scheduleCallback_def
             split: option.splits if_splits)
  from a b c clearInput_buffer show ?thesis by blast
qed

theorem completion_keeps_buffer_witness:
  "step (TimerFires 1)
     (\<lparr>rawInput = ''.'', isPressing = False, pressStartTime = None,
       lastReleaseTime = 1100, charTimer = Some 1, currentMorseChar = ''.''\<rparr>,
      \<lparr>now = 1550, pending = [(1, 1550)], nextId = 2\<rparr>)
   = Some ((\<lparr>rawInput = ''.'', isPressing = False, pressStartTime = None,
       lastReleaseTime = 1100, charTimer = None, currentMorseChar = ''.''\<rparr>,
      \<lparr>now = 1550, pending = [], nextId = 2\<rparr>), Some ''.'') \<and>
   currentMorseChar \<lparr>rawInput = ''.'', isPressing = False, pressStartTime = None,
       lastReleaseTime = 1100, charTimer = None, currentMorseChar = ''.''\<rparr> = ''.''"
proof -
  have s: "step (TimerFires 1)
     (\<lparr>rawInput = ''.'', isPressing = False, pressStartTime = None,
       lastReleaseTime = 1100, charTimer = Some 1, currentMorseChar = ''.''\<rparr>,
      \<lparr>now = 1550, pending = [(1, 1550)], nextId = 2\<rparr>)
   = Some ((\<lparr>rawInput = ''.'', isPressing = False, pressStartTime = None,
       lastReleaseTime = 1100, charTimer = None, currentMorseChar = ''.''\<rparr>,
      \<lparr>now = 1550, pending = [], nextId = 2\<rparr>), Some ''.'')"
    by (simp add: due_def charTimerCallback_def completeInputSequence_def clearTimeout_def)
  from completion_keeps_buffer s show ?thesis by simp
qed

lemma step_out_nonempty: "step ev w = Some (w', Some s) \<Longrightarrow> s \<noteq> []"
  by (cases ev; cases w)
     (auto simp: charTimerCallback_def completeInputSequence_def split: if_splits)

lemma run_out_nonempty: "run evs w = Some (w', outs) \<Longrightarrow> list_all (\<lambda>s. s \<noteq> []) outs"
proof (induction evs arbitrary: w outs)
  case Nil
  then show ?case by simp
next
  case (Cons ev evs)
  then show ?case
    by (auto split: option.splits prod.splits dest: step_out_nonempty)
qed

text \<open>
  Claim C10. Every completion delivered during any run of the decoder, from any state,
  is a string that is not empty. When the timer runs on an empty buffer nothing is
  delivered; in the session such a step neither changes the validation state nor
  schedules anything.
\<close>

theorem completion_never_empty:
  "(\<forall>evs w w' outs. run evs w = Some (w', outs) \<longrightarrow> list_all (\<lambda>s. s \<noteq> []) outs) \<and>
   (\<forall>h d e w' out. currentMorseChar d = [] \<and> step (TimerFires h) (d, e) = Some (w', out)
      \<longrightarrow> out = None) \<and>
   (\<forall>h s s'. session_step (CharTimer h) s = Some s' \<and> buffer s = []
      \<longrightarrow> validationState s' = validationState s \<and> timeouts s' = timeouts s)"
proof -
  have b: "out = None"
    if "currentMorseChar d = []" and "step (TimerFires h) (d, e) = Some (w', out)"
    for h d e w' out
    using that by (auto simp: charTimerCallback_def completeInputSequence_def split: if_splits)
  have c: "validationState s' = validationState s \<and> timeouts s' = timeouts s"
    if "session_step (CharTimer h) s = Some s'" and "buffer s = []" for h s s'
    using that
    by (auto simp: buffer_def completeInputSequence_def Let_def split: option.splits if_splits)
  from run_out_nonempty b c show ?thesis by blast
qed

theorem completion_never_empty_witness:
  "run [PressStart, Tick 100, PressEnd, Tick 450, TimerFires 1, ClearInput] (initial 1000)
     = Some ((\<lparr>rawInput = [], isPressing = False, pressStartTime = None,
               lastReleaseTime = 1550, charTimer = None, currentMorseChar = []\<rparr>,
              \<lparr>now = 1550, pending = [], nextId = 2\<rparr>), [''.'']) \<and>
   list_all (\<lambda>s. s \<noteq> []) [''.''] \<and>
   step (TimerFires 7) (freshDecoder 1000, \<lparr>now = 1000, pending = [(7, 900)], nextId = 8\<rparr>)
     = Some ((freshDecoder 1000, \<lparr>now = 1000, pending = [], nextId = 8\<rparr>), None)"
proof -
  have r: "run [PressStart, Tick 100, PressEnd, Tick 450, TimerFires 1, ClearInput] (initial 1000)
     = Some ((\<lparr>rawInput = [], isPressing = False, pressStartTime = None,
               lastReleaseTime = 1550, charTimer = None, currentMorseChar = []\<rparr>,
              \<lparr>now = 1550, pending = [], nextId = 2\<rparr>), [''.''])"
    by (simp add: initial_def freshDecoder_def handlePressStart_def handlePressEnd_def
          clearTimers_def setTimeout_def threshold_value gap_value Let_def due_def
          charTimerCallback_def completeInputSequence_def clearTimeout_def clearInput_def)
  have s: "step (TimerFires 7) (freshDecoder 1000, \<lparr>now = 1000, pending = [(7, 900)], nextId = 8\<rparr>)
     = Some ((freshDecoder 1000, \<lparr>now = 1000, pending = [], nextId = 8\<rparr>), None)"
    by (simp add: freshDecoder_def due_def charTimerCallback_def completeInputSequence_def
          clearTimeout_def)
  from completion_never_empty r s show ?thesis by simp
qed

section \<open>Properties of the session\<close>

lemma initialSession_inv: "session_inv (initialSession t)"
  by (simp add: session_inv_def initialSession_def buffer_def displayed_def freshDecoder_def
        symbols_only_def timer_ok_def)

lemma refClearInput_inv:
  assumes "session_inv s"
  shows "session_inv (refClearInput s) \<and> buffer (refClearInput s) = [] \<and>
         displayed (refClearInput s) = [] \<and> pending (world (refClearInput s)) = [] \<and>
         currentItemIndex (refClearInput s) = currentItemIndex s \<and>
         timeouts (refClearInput s) = timeouts s \<and>
         nextId (world (refClearInput s)) = nextId (world s) \<and>
         now (world (refClearInput s)) = now (world s) \<and>
         (input (refClearInput s) = None \<longleftrightarrow> input s = None)"
proof (cases "input s")
  case None
  with assms show ?thesis
    by (simp add: refClearInput_def session_inv_def buffer_def displayed_def)
next
  case (Some d)
  with assms have tk: "timer_ok d (world s)" by (simp add: session_inv_def)
  obtain d1 e1 where c: "clearInput d (world s) = (d1, e1)" by (cases "clearInput d (world s)")
  from assms have n: "0 < nextId (world s)" by (simp add: session_inv_def)
  from clearInput_effect[OF tk c] Some c n show ?thesis
    by (simp add: refClearInput_def session_inv_def buffer_def displayed_def symbols_only_def
          timer_ok_def)
qed

lemma itemChanged_inv:
  assumes "session_inv s"
  shows "session_inv (itemChanged s) \<and> buffer (itemChanged s) = [] \<and>
         displayed (itemChanged s) = [] \<and> pending (world (itemChanged s)) = [] \<and>
         currentItemIndex (itemChanged s) = currentItemIndex s \<and>
         timeouts (itemChanged s) = timeouts s"
proof -
  define s1 where "s1 = (case input s of
                  None \<Rightarrow> s
                | Some d \<Rightarrow> s\<lparr>world := snd (clearTimers d (world s))\<rparr>)"
  define s2 where "s2 = s1\<lparr>input := (if currentItem s1 = None then None
                            else Some (freshDecoder (now (world s1)))),
                     validationState := Idle, feedbackMessage := []\<rparr>"
  have e: "itemChanged s = refClearInput s2"
    by (simp add: itemChanged_def Let_def s1_def s2_def)
  have p1: "pending (world s1) = []"
  proof (cases "input s")
    case None
    with assms show ?thesis by (simp add: s1_def session_inv_def)
  next
    case (Some d)
    with assms have tk: "timer_ok d (world s)" by (simp add: session_inv_def)
    from clearTimers_effect[OF tk surjective_pairing] Some show ?thesis by (simp add: s1_def)
  qed
  have k: "currentItemIndex s1 = currentItemIndex s \<and> timeouts s1 = timeouts s"
    by (simp add: s1_def split: option.splits)
  have n1: "0 < nextId (world s1)"
  proof (cases "input s")
    case None
    with assms show ?thesis by (simp add: s1_def session_inv_def)
  next
    case (Some d)
    with assms have tk: "timer_ok d (world s)" by (simp add: session_inv_def)
    from clearTimers_effect[OF tk surjective_pairing] Some assms show ?thesis
      by (simp add: s1_def session_inv_def)
  qed
  have i2: "session_inv s2"
    using p1 n1
    by (simp add: s2_def session_inv_def buffer_def displayed_def freshDecoder_def symbols_only_def
          timer_ok_def)
  from refClearInput_inv[OF i2] e k show ?thesis by (simp add: s2_def)
qed

lemma handleInputComplete_frame:
  "input (handleInputComplete code s) = input s \<and>
   pending (world (handleInputComplete code s)) = pending (world s) \<and>
   now (world (handleInputComplete code s)) = now (world s) \<and>
   currentItemIndex (handleInputComplete code s) = currentItemIndex s"
  by (simp add: handleInputComplete_def scheduleCallback_def split: option.splits)

lemma runCallback_inv:
  assumes "session_inv s"
  shows "session_inv (runCallback cb s)"
proof (cases cb)
  case (AdvanceCallback idx)
  show ?thesis
  proof (cases "idx < length learningSequence - 1")
    case True
    have "session_inv (s\<lparr>currentItemIndex := currentItemIndex s + 1,
                   validationState := Idle, feedbackMessage := []\<rparr>)"
      using assms by (simp add: session_inv_def buffer_def displayed_def split: option.splits)
    from refClearInput_inv[OF this] itemChanged_inv AdvanceCallback True show ?thesis by simp
  next
    case False
    with assms AdvanceCallback show ?thesis
      by (simp add: session_inv_def buffer_def displayed_def split: option.splits)
  qed
next
  case RetryCallback
  have "session_inv (s\<lparr>validationState := Idle, feedbackMessage := []\<rparr>)"
    using assms by (simp add: session_inv_def buffer_def displayed_def split: option.splits)
  from refClearInput_inv[OF this] RetryCallback show ?thesis by simp
qed

lemma session_step_inv:
  assumes "session_inv s" and "session_step ev s = Some s'"
  shows "session_inv s'"
proof (cases ev)
  case (Wait n)
  with assms show ?thesis
    by (auto simp: session_inv_def buffer_def displayed_def timer_ok_def split: option.splits)
next
  case Press
  with assms obtain d where d: "input s = Some d" by (auto split: option.splits)
  with assms have tk: "timer_ok d (world s)" by (simp add: session_inv_def)
  obtain d1 e1 where h: "handlePressStart d (world s) = (d1, e1)"
    by (cases "handlePressStart d (world s)")
  from handlePressStart_effect[OF tk h] assms Press d h show ?thesis
    by (auto simp: session_inv_def buffer_def displayed_def timer_ok_def)
next
  case Release
  with assms obtain d where d: "input s = Some d" by (auto split: option.splits)
  with assms have tk: "timer_ok d (world s)" by (simp add: session_inv_def)
  obtain d1 e1 where h: "handlePressEnd d (world s) = (d1, e1)"
    by (cases "handlePressEnd d (world s)")
  show ?thesis
  proof (cases "pressStartTime d = None \<or> pressStartTime d = Some 0")
    case True
    with assms Release d show ?thesis
      by (auto simp: handlePressEnd_def session_inv_def buffer_def displayed_def)
  next
    case False
    then obtain t0 where t0: "pressStartTime d = Some t0" "t0 \<noteq> 0" by auto
    from handlePressEnd_effect[OF t0 tk h] assms Release d h show ?thesis
      by (auto simp: session_inv_def buffer_def displayed_def timer_ok_def symbols_only_def)
  qed
next
  case (CharTimer h)
  with assms obtain d where d: "input s = Some d" and du: "due h (world s)"
    by (auto split: option.splits if_splits)
  with assms have tk: "timer_ok d (world s)" by (simp add: session_inv_def)
  define s0 where "s0 = s\<lparr>world := clearTimeout h (world s)\<rparr>"
  define s1 where "s1 = (case completeInputSequence d of
                            None \<Rightarrow> s0
                          | Some code \<Rightarrow> handleInputComplete code s0)"
  have s': "s' = s1\<lparr>input := Some (d\<lparr>charTimer := None\<rparr>)\<rparr>"
    unfolding s0_def s1_def using assms(2) CharTimer d du
    by (auto simp: Let_def split: if_splits)
  have "pending (world s0) = []"
    using tk du
    by (auto simp: s0_def clearTimeout_def timer_ok_def due_def list_ex_iff
             split: option.splits)
  then have "pending (world s1) = []"
    using handleInputComplete_frame[of _ s0] by (simp add: s1_def split: option.splits)
  moreover have "0 < nextId (world s1)"
    using assms(1)
    by (simp add: s1_def s0_def session_inv_def clearTimeout_def handleInputComplete_def
          scheduleCallback_def split: option.splits)
  ultimately show ?thesis using assms(1) d
    by (simp add: s' session_inv_def buffer_def displayed_def timer_ok_def)
next
  case (SessionTimer k)
  with assms have s': "s' = runCallback (snd (timeouts s ! k))
                   (s\<lparr>timeouts := take k (timeouts s) @ drop (Suc k) (timeouts s)\<rparr>)"
    by (auto split: if_splits)
  have "session_inv (s\<lparr>timeouts := take k (timeouts s) @ drop (Suc k) (timeouts s)\<rparr>)"
    using assms(1) by (simp add: session_inv_def buffer_def displayed_def split: option.splits)
  from runCallback_inv[OF this] s' show ?thesis by simp
qed

lemma session_run_inv:
  "session_inv s \<Longrightarrow> session_run evs s = Some s' \<Longrightarrow> session_inv s'"
proof (induction evs arbitrary: s)
  case Nil
  then show ?case by simp
next
  case (Cons ev evs)
  then show ?case by (auto split: option.splits dest: session_step_inv)
qed

lemma index_change_flushes:
  assumes "session_inv s" and "session_step ev s = Some s'"
    and "currentItemIndex s' \<noteq> currentItemIndex s"
  shows "buffer s' = [] \<and> displayed s' = [] \<and> pending (world s') = []"
proof (cases ev)
  case (SessionTimer k)
  define s0 where "s0 = s\<lparr>timeouts := take k (timeouts s) @ drop (Suc k) (timeouts s)\<rparr>"
  from SessionTimer assms have s': "s' = runCallback (snd (timeouts s ! k)) s0"
    by (auto simp: s0_def split: if_splits)
  have i0: "session_inv s0"
    using assms(1) by (simp add: s0_def session_inv_def buffer_def displayed_def split: option.splits)
  show ?thesis
  proof (cases "snd (timeouts s ! k)")
    case (AdvanceCallback idx)
    show ?thesis
    proof (cases "idx < length learningSequence - 1")
      case True
      have "session_inv (s0\<lparr>currentItemIndex := currentItemIndex s0 + 1,
                   validationState := Idle, feedbackMessage := []\<rparr>)"
        using i0 by (simp add: session_inv_def buffer_def displayed_def split: option.splits)
      from refClearInput_inv[OF this] itemChanged_inv s' AdvanceCallback True show ?thesis
        by simp
    next
      case False
      with s' AdvanceCallback assms(3) show ?thesis by (simp add: s0_def)
    qed
  next
    case RetryCallback
    have "session_inv (s0\<lparr>validationState := Idle, feedbackMessage := []\<rparr>)"
      using i0 by (simp add: session_inv_def buffer_def displayed_def split: option.splits)
    from refClearInput_inv[OF this] s' RetryCallback assms(3) show ?thesis
      by (simp add: s0_def)
  qed
next
  case (CharTimer h)
  with assms(2,3) handleInputComplete_frame show ?thesis
    by (auto simp: Let_def split: option.splits if_splits)
qed (use assms in \<open>auto split: option.splits prod.splits\<close>)

text \<open>
  Claim C8. In every state the decoder reaches by presses, releases, timers, the passing
  of time and resets, the buffer holds dots and dashes only and the displayed input is
  the buffer. The same holds of the session's decoder in every state the session
  reaches, and whenever a step of the session changes the current item, the buffer and
  the displayed input are empty and no completion timer is pending in the state that
  step produces: input for the new target starts from a flushed buffer.
\<close>

theorem buffer_symbols_and_flush:
  "(\<forall>evs t d e outs. run evs (initial t) = Some ((d, e), outs) \<longrightarrow>
      symbols_only (currentMorseChar d) \<and> rawInput d = currentMorseChar d) \<and>
   (\<forall>evs t s. session_run evs (initialSession t) = Some s \<longrightarrow>
      symbols_only (buffer s) \<and> displayed s = buffer s \<and>
      (\<forall>ev s'. session_step ev s = Some s' \<and> currentItemIndex s' \<noteq> currentItemIndex s \<longrightarrow>
         buffer s' = [] \<and> displayed s' = [] \<and> pending (world s') = []))"
proof -
  have a: "symbols_only (currentMorseChar d) \<and> rawInput d = currentMorseChar d"
    if "run evs (initial t) = Some ((d, e), outs)" for evs t d e outs
    using reachable_inv[OF that] by (simp add: decoder_inv_def)
  have b: "symbols_only (buffer s) \<and> displayed s = buffer s \<and>
      (\<forall>ev s'. session_step ev s = Some s' \<and> currentItemIndex s' \<noteq> currentItemIndex s \<longrightarrow>
         buffer s' = [] \<and> displayed s' = [] \<and> pending (world s') = [])"
    if "session_run evs (initialSession t) = Some s" for evs t s
  proof -
    have i: "session_inv s" using session_run_inv[OF initialSession_inv that] .
    then show ?thesis using index_change_flushes[OF i] by (auto simp: session_inv_def)
  qed
  from a b show ?thesis by blast
qed



lemmas decoder_defs =
  initial_def freshDecoder_def handlePressStart_def handlePressEnd_def clearTimers_def
  setTimeout_def threshold_value gap_value Let_def due_def charTimerCallback_def
  completeInputSequence_def clearTimeout_def clearInput_def

lemmas session_defs =
  initialSession_def currentItem_def expectedMorse_def learningSequence_def
  letterMorseCodeMap_def scheduleCallback_def handleInputComplete_def refClearInput_def
  itemChanged_def buffer_def displayed_def

theorem buffer_symbols_and_flush_witness:
  "session_run [Press, Wait 100, Release, Wait 50, Press, Wait 300, Release, Wait 450,
                CharTimer 2, Wait 800] (initialSession 1000)
     = Some \<lparr>currentItemIndex = 0, validationState = Correct, feedbackMessage = ''Correct!'',
             input = Some \<lparr>rawInput = ''.-'', isPressing = False, pressStartTime = None,
                            lastReleaseTime = 1450, charTimer = None,
                            currentMorseChar = ''.-''\<rparr>,
             world = \<lparr>now = 2700, pending = [], nextId = 4\<rparr>,
             timeouts = [(2700, AdvanceCallback 0)]\<rparr> \<and>
   symbols_only ''.-'' \<and>
   session_step (SessionTimer 0)
       \<lparr>currentItemIndex = 0, validationState = Correct, feedbackMessage = ''Correct!'',
             input = Some \<lparr>rawInput = ''.-'', isPressing = False, pressStartTime = None,
                            lastReleaseTime = 1450, charTimer = None,
                            currentMorseChar = ''.-''\<rparr>,
             world = \<lparr>now = 2700, pending = [], nextId = 4\<rparr>,
             timeouts = [(2700, AdvanceCallback 0)]\<rparr>
     = Some \<lparr>currentItemIndex = 1, validationState = Idle, feedbackMessage = [],
             input = Some \<lparr>rawInput = [], isPressing = False, pressStartTime = None,
                            lastReleaseTime = 2700, charTimer = None, currentMorseChar = []\<rparr>,
             world = \<lparr>now = 2700, pending = [], nextId = 4\<rparr>, timeouts = []\<rparr> \<and>
   buffer \<lparr>currentItemIndex = 1, validationState = Idle, feedbackMessage = [],
             input = Some \<lparr>rawInput = [], isPressing = False, pressStartTime = None,
                            lastReleaseTime = 2700, charTimer = None, currentMorseChar = []\<rparr>,
             world = \<lparr>now = 2700, pending = [], nextId = 4\<rparr>, timeouts = []\<rparr> = []"
proof -
  let ?s = "\<lparr>currentItemIndex = 0, validationState = Correct, feedbackMessage = ''Correct!'',
             input = Some \<lparr>rawInput = ''.-'', isPressing = False, pressStartTime = None,
                            lastReleaseTime = 1450, charTimer = None,
                            currentMorseChar = ''.-''\<rparr>,
             world = \<lparr>now = 2700, pending = [], nextId = 4\<rparr>,
             timeouts = [(2700, AdvanceCallback 0)]\<rparr>"
  let ?s' = "\<lparr>currentItemIndex = 1, validationState = Idle, feedbackMessage = [],
             input = Some \<lparr>rawInput = [], isPressing = False, pressStartTime = None,
                            lastReleaseTime = 2700, charTimer = None, currentMorseChar = []\<rparr>,
             world = \<lparr>now = 2700, pending = [], nextId = 4\<rparr>, timeouts = []\<rparr>"
  have r: "session_run [Press, Wait 100, Release, Wait 50, Press, Wait 300, Release, Wait 450,
                CharTimer 2, Wait 800] (initialSession 1000) = Some ?s"
    by (simp add: decoder_defs session_defs)
  have st: "session_step (SessionTimer 0) ?s = Some ?s'"
    by (simp add: decoder_defs session_defs)
  have ix: "currentItemIndex ?s' \<noteq> currentItemIndex ?s" by simp
  from buffer_symbols_and_flush r st ix have "symbols_only (buffer ?s) \<and> buffer ?s' = []"
    by blast
  with r st show ?thesis by (simp add: buffer_def)
qed





section \<open>Properties of the converter\<close>

lemma js_space: "js '' '' = [0x20]"
  by code_simp

lemma codes_nonempty: "map_of morseCodeMap c = Some code \<Longrightarrow> code \<noteq> []"
proof -
  assume "map_of morseCodeMap c = Some code"
  then have "(c, code) \<in> set morseCodeMap" by (rule map_of_SomeD)
  moreover have "list_all (\<lambda>p. snd p \<noteq> []) morseCodeMap" by code_simp
  ultimately show ?thesis by (fastforce simp: list_all_iff)
qed

lemma filter_codes:
  "filter (\<lambda>code. code \<noteq> [])
     (map (\<lambda>char. case map_of morseCodeMap char of
                    None \<Rightarrow> []
                  | Some code \<Rightarrow> if code \<noteq> [] then code else []) cs)
   = List.map_filter (map_of morseCodeMap) cs"
  by (induction cs) (auto simp: List.map_filter_simps dest: codes_nonempty split: option.splits)

lemma join_as_concat:
  "join sep ys = (case ys of [] \<Rightarrow> [] | c # cs \<Rightarrow> c @ concat (map (\<lambda>x. sep @ x) cs))"
  by (induction sep ys rule: join.induct) auto

lemma wordToMorse_depends:
  "up w = up' w \<Longrightarrow> wordToMorse up w = wordToMorse up' w"
  by (simp add: wordToMorse_def)

text \<open>
  Claim C6. Whatever \<open>toUpperCase\<close> is, as long as it turns the empty string into the
  empty string, \<open>wordToMorse\<close> computes on every input string what the specification
  words: the codes of those characters of the uppercased input that the table has, in
  order, with one space between consecutive codes; characters outside the table leave
  no trace. Since uppercasing leaves \<open>SOS\<close> as it is, \<open>SOS\<close> gives
  \<open>... --- ...\<close>, and the empty string gives the empty string.
\<close>

theorem wordToMorse_refines_spec:
  "(\<forall>toUpperCase w. toUpperCase [] = [] \<longrightarrow>
      wordToMorse toUpperCase w = wordToMorse_spec toUpperCase w) \<and>
   (\<forall>toUpperCase. toUpperCase (js ''SOS'') = js ''SOS'' \<longrightarrow>
      wordToMorse toUpperCase (js ''SOS'') = js ''... --- ...'') \<and>
   (\<forall>toUpperCase. wordToMorse toUpperCase [] = [])"
proof -
  have a: "wordToMorse up w = wordToMorse_spec up w" if "up [] = []" for up w
  proof (cases "w = []")
    case True
    with that show ?thesis
      by (simp add: wordToMorse_def wordToMorse_spec_def List.map_filter_simps)
  next
    case False
    then show ?thesis
      by (simp add: wordToMorse_def wordToMorse_spec_def filter_codes join_as_concat)
  qed
  have "wordToMorse (\<lambda>s. s) (js ''SOS'') = js ''... --- ...''" by code_simp
  then have b: "wordToMorse up (js ''SOS'') = js ''... --- ...''"
    if "up (js ''SOS'') = js ''SOS''" for up
    using wordToMorse_depends[of up "js ''SOS''" "\<lambda>s. s"] that by simp
  have c: "wordToMorse up [] = []" for up by (simp add: wordToMorse_def)
  from a b c show ?thesis by blast
qed

theorem wordToMorse_refines_spec_witness:
  "upperLatin1 [] = [] \<and> upperLatin1 (js ''SOS'') = js ''SOS'' \<and>
   wordToMorse upperLatin1 (js ''SOS'') = js ''... --- ...'' \<and>
   wordToMorse upperLatin1 [0xDF] = js ''... ...'' \<and>
   wordToMorse upperLatin1 (js ''so s1#'') = js ''... --- ... .----''"
proof -
  have u0: "upperLatin1 [] = []" by (simp add: upperLatin1_def)
  have u1: "upperLatin1 (js ''SOS'') = js ''SOS''" by code_simp
  have s1: "wordToMorse_spec upperLatin1 [0xDF] = js ''... ...''" by code_simp
  have s2: "wordToMorse_spec upperLatin1 (js ''so s1#'') = js ''... --- ... .----''"
    by code_simp
  note t = wordToMorse_refines_spec
  from t u0 have r: "wordToMorse upperLatin1 w = wordToMorse_spec upperLatin1 w" for w
    by blast
  from t u1 have "wordToMorse upperLatin1 (js ''SOS'') = js ''... --- ...''" by blast
  with u0 u1 r s1 s2 show ?thesis by simp
qed












section \<open>Properties of the loader\<close>

lemma includes_str_single: "includes_str s [c] = (c \<in> set s)"
  by (induction s) auto

lemma lettersOnly_no_space: "lettersOnly s \<Longrightarrow> \<not> includes_str s (js '' '')"
  by (auto simp: lettersOnly_def list_all_iff includes_str_single js_space)

text \<open>
  Claim C3, as stated, has one fixed default target for rejected payloads and for
  transport failures alike. The loader has two: the target after the rejected payload
  \<open>hello world\<close> is not the target after a failed exchange.
\<close>

theorem loader_falls_back_counterexample:
  "word (loader upperLatin1 (Some (js ''key'')) (Responds (js ''hello world'')))
     \<noteq> word (loader upperLatin1 (Some (js ''key'')) (Throws None))"
  by code_simp

text \<open>
  Claim C3, amended. With an API key configured and whatever \<open>toUpperCase\<close> is, the
  loader accepts a payload exactly when its trimmed and uppercased text is not empty
  and has the letters A to Z only (so no white space inside), and then returns that
  text with no error. Every other payload gives the default target \<open>HELLO\<close>, every
  failed exchange gives the default target \<open>MORSE\<close>, and a missing or empty API key
  gives \<open>ERROR\<close>, each with a diagnostic message; the loader returns on every path.
  Since uppercasing \<open>hello world\<close> gives \<open>HELLO WORLD\<close>, that payload is rejected in
  favour of \<open>HELLO\<close> with a message.
\<close>

theorem loader_validates_payload:
  assumes "apiKey = Some key" and "key \<noteq> []"
  shows "(lettersOnly (toUpperCase (trim raw)) \<longrightarrow>
            loader toUpperCase apiKey (Responds raw)
              = \<lparr>word = toUpperCase (trim raw), error = None\<rparr>) \<and>
         (\<not> lettersOnly (toUpperCase (trim raw)) \<longrightarrow>
            loader toUpperCase apiKey (Responds raw)
              = \<lparr>word = js ''HELLO'',
                 error = Some (js ''Received invalid word format, using default.'')\<rparr>) \<and>
         word (loader toUpperCase apiKey (Throws message)) = js ''MORSE'' \<and>
         error (loader toUpperCase apiKey (Throws message)) \<noteq> None \<and>
         (toUpperCase (js ''hello world'') = js ''HELLO WORLD'' \<longrightarrow>
            loader toUpperCase apiKey (Responds (js ''hello world''))
              = \<lparr>word = js ''HELLO'',
                 error = Some (js ''Received invalid word format, using default.'')\<rparr>) \<and>
         loader toUpperCase None outcome
           = \<lparr>word = js ''ERROR'', error = Some (js ''API key not configured.'')\<rparr> \<and>
         loader toUpperCase (Some []) outcome
           = \<lparr>word = js ''ERROR'', error = Some (js ''API key not configured.'')\<rparr>"
proof -
  have a: "loader toUpperCase apiKey (Responds raw)
             = \<lparr>word = toUpperCase (trim raw), error = None\<rparr>"
    if "lettersOnly (toUpperCase (trim raw))" for raw
    using that lettersOnly_no_space[OF that] assms
    by (simp add: loader_def Let_def lettersOnly_def)
  have b: "loader toUpperCase apiKey (Responds raw)
              = \<lparr>word = js ''HELLO'',
                 error = Some (js ''Received invalid word format, using default.'')\<rparr>"
    if "\<not> lettersOnly (toUpperCase (trim raw))" for raw
    using that assms by (simp add: loader_def Let_def)
  have c: "word (loader toUpperCase apiKey (Throws message)) = js ''MORSE''"
    "error (loader toUpperCase apiKey (Throws message)) \<noteq> None"
    using assms by (simp_all add: loader_def Let_def)
  have "trim (js ''hello world'') = js ''hello world''" by code_simp
  moreover have "\<not> lettersOnly (js ''HELLO WORLD'')" by code_simp
  ultimately have d: "loader toUpperCase apiKey (Responds (js ''hello world''))
              = \<lparr>word = js ''HELLO'',
                 error = Some (js ''Received invalid word format, using default.'')\<rparr>"
    if "toUpperCase (js ''hello world'') = js ''HELLO WORLD''"
    using b[of "js ''hello world''"] that by simp
  have e: "loader toUpperCase None outcome
           = \<lparr>word = js ''ERROR'', error = Some (js ''API key not configured.'')\<rparr>"
    "loader toUpperCase (Some []) outcome
           = \<lparr>word = js ''ERROR'', error = Some (js ''API key not configured.'')\<rparr>"
    by (simp_all add: loader_def)
  from a b c d e show ?thesis by blast
qed

theorem loader_validates_payload_witness:
  "loader upperLatin1 (Some (js ''key'')) (Responds (js '' hello ''))
     = \<lparr>word = js ''HELLO'', error = None\<rparr> \<and>
   loader upperLatin1 (Some (js ''key'')) (Responds [0xDF])
     = \<lparr>word = js ''SS'', error = None\<rparr> \<and>
   loader upperLatin1 (Some (js ''key'')) (Responds (js ''abc1''))
     = \<lparr>word = js ''HELLO'',
        error = Some (js ''Received invalid word format, using default.'')\<rparr> \<and>
   loader upperLatin1 (Some (js ''key'')) (Responds (js ''hello world''))
     = \<lparr>word = js ''HELLO'',
        error = Some (js ''Received invalid word format, using default.'')\<rparr> \<and>
   word (loader upperLatin1 (Some (js ''key'')) (Throws (Some (js ''network'')))) = js ''MORSE''"
proof -
  have k: "Some (js ''key'') = Some (js ''key'')" "js ''key'' \<noteq> []"
    by (simp_all add: js_def)
  have t1: "upperLatin1 (trim (js '' hello '')) = js ''HELLO''" by code_simp
  have l1: "lettersOnly (js ''HELLO'')" by code_simp
  have t2: "upperLatin1 (trim [0xDF]) = js ''SS''" by code_simp
  have l2: "lettersOnly (js ''SS'')" by code_simp
  have t3: "upperLatin1 (trim (js ''abc1'')) = js ''ABC1''" by code_simp
  have l3: "\<not> lettersOnly (js ''ABC1'')" by code_simp
  have t4: "upperLatin1 (js ''hello world'') = js ''HELLO WORLD''" by code_simp
  from loader_validates_payload[OF k, of upperLatin1 "js '' hello ''"] t1 l1
  have "loader upperLatin1 (Some (js ''key'')) (Responds (js '' hello ''))
     = \<lparr>word = js ''HELLO'', error = None\<rparr>"
    by simp
  moreover from loader_validates_payload[OF k, of upperLatin1 "[0xDF]"] t2 l2
  have "loader upperLatin1 (Some (js ''key'')) (Responds [0xDF])
     = \<lparr>word = js ''SS'', error = None\<rparr>"
    by simp
  moreover from loader_validates_payload[OF k, of upperLatin1 "js ''abc1''"] t3 l3
  have "loader upperLatin1 (Some (js ''key'')) (Responds (js ''abc1''))
     = \<lparr>word = js ''HELLO'',
        error = Some (js ''Received invalid word format, using default.'')\<rparr>"
    by simp
  moreover from loader_validates_payload[OF k, of upperLatin1] t4
  have "loader upperLatin1 (Some (js ''key'')) (Responds (js ''hello world''))
     = \<lparr>word = js ''HELLO'',
        error = Some (js ''Received invalid word format, using default.'')\<rparr>"
    by blast
  moreover from loader_validates_payload[OF k, of upperLatin1]
  have "word (loader upperLatin1 (Some (js ''key'')) (Throws (Some (js ''network''))))
          = js ''MORSE''" by blast
  ultimately show ?thesis by blast
qed

section \<open>The end of the letter sequence\<close>

text \<open>
  The advance callback increments the item index only below the last position, so the
  index never passes the last letter through it: at the last letter it only changes the
  feedback, and the decoder stays mounted with its buffer.
\<close>

lemma advance_at_last_item:
  "currentItemIndex (runCallback (AdvanceCallback 25) s) = currentItemIndex s \<and>
   input (runCallback (AdvanceCallback 25) s) = input s \<and>
   validationState (runCallback (AdvanceCallback 25) s) = validationState s"
  by (simp add: learningSequence_def letterMorseCodeMap_def)

text \<open>
  Claim C7 says that once the last target has been answered correctly no further
  completion is processed and the session state no longer changes. The session does
  otherwise. Keying the twenty-six letters correctly from the initial session ends with
  the last letter still current, the validation state correct and the congratulation
  shown. One more tap then completes as the code of the last letter followed by a dot;
  \<open>handleInputComplete\<close> compares it, since the guard for the end of the sequence
  looks for a missing current item, and the validation state becomes incorrect with a
  retry scheduled.
\<close>

theorem input_after_completion_is_processed:
  "session_run (keyLetters 1 (map snd letterMorseCodeMap)) (initialSession 1000)
     = Some \<lparr>currentItemIndex = 25, validationState = Correct,
             feedbackMessage = ''Congratulations! You completed all letters.'',
             input = Some \<lparr>rawInput = ''--..'', isPressing = False, pressStartTime = None,
                            lastReleaseTime = 50850, charTimer = None,
                            currentMorseChar = ''--..''\<rparr>,
             world = \<lparr>now = 52100, pending = [], nextId = 109\<rparr>, timeouts = []\<rparr> \<and>
   session_run [Press, Wait 100, Release, Wait 450, CharTimer 109]
       \<lparr>currentItemIndex = 25, validationState = Correct,
             feedbackMessage = ''Congratulations! You completed all letters.'',
             input = Some \<lparr>rawInput = ''--..'', isPressing = False, pressStartTime = None,
                            lastReleaseTime = 50850, charTimer = None,
                            currentMorseChar = ''--..''\<rparr>,
             world = \<lparr>now = 52100, pending = [], nextId = 109\<rparr>, timeouts = []\<rparr>
     = Some \<lparr>currentItemIndex = 25, validationState = Incorrect,
             feedbackMessage = ''Incorrect. Expected: --..'',
             input = Some \<lparr>rawInput = ''--...'', isPressing = False, pressStartTime = None,
                            lastReleaseTime = 52200, charTimer = None,
                            currentMorseChar = ''--...''\<rparr>,
             world = \<lparr>now = 52650, pending = [], nextId = 111\<rparr>,
             timeouts = [(54150, RetryCallback)]\<rparr>"
proof -
  have a: "session_run (keyLetters 1 (map snd letterMorseCodeMap)) (initialSession 1000)
     = Some \<lparr>currentItemIndex = 25, validationState = Correct,
             feedbackMessage = ''Congratulations! You completed all letters.'',
             input = Some \<lparr>rawInput = ''--..'', isPressing = False, pressStartTime = None,
                            lastReleaseTime = 50850, charTimer = None,
                            currentMorseChar = ''--..''\<rparr>,
             world = \<lparr>now = 52100, pending = [], nextId = 109\<rparr>, timeouts = []\<rparr>"
    by code_simp
  have b: "session_run [Press, Wait 100, Release, Wait 450, CharTimer 109]
       \<lparr>currentItemIndex = 25, validationState = Correct,
             feedbackMessage = ''Congratulations! You completed all letters.'',
             input = Some \<lparr>rawInput = ''--..'', isPressing = False, pressStartTime = None,
                            lastReleaseTime = 50850, charTimer = None,
                            currentMorseChar = ''--..''\<rparr>,
             world = \<lparr>now = 52100, pending = [], nextId = 109\<rparr>, timeouts = []\<rparr>
     = Some \<lparr>currentItemIndex = 25, validationState = Incorrect,
             feedbackMessage = ''Incorrect. Expected: --..'',
             input = Some \<lparr>rawInput = ''--...'', isPressing = False, pressStartTime = None,
                            lastReleaseTime = 52200, charTimer = None,
                            currentMorseChar = ''--...''\<rparr>,
             world = \<lparr>now = 52650, pending = [], nextId = 111\<rparr>,
             timeouts = [(54150, RetryCallback)]\<rparr>"
    by code_simp
  from a b show ?thesis by (rule conjI)
qed

end
